theory Spec2Isabelle
  imports Complex_Main "HOL-Library.Char_ord" "HOL-Library.List_Lexorder"
    "HOL-Library.Product_Lexorder"
begin

section \<open>The flight table\<close>

text \<open>
  \<^verbatim>\<open>main.py\<close> holds one class, \<^verbatim>\<open>FlightAnalyzer\<close>, around one pandas data frame
  \<^verbatim>\<open>self.df\<close>. A data frame is modelled as the list of its rows, in row order. A cell
  that pandas holds as NaN (NaT for a timestamp) is \<open>None\<close>: \<^verbatim>\<open>read_csv\<close> stores an
  empty field that way in every column, the key columns included. Numbers are exact
  rationals; the rounding of 64-bit floats is not modelled, the wrap-around of 64-bit
  integers is. Strings are byte lists in UTF-8, whose lexicographic order is the code
  point order Python compares strings by.
\<close>

datatype month_of_year =
  Jan | Feb | Mar | Apr | May | Jun | Jul | Aug | Sep | Oct | Nov | Dec

record timestamp =
  ts_year :: int
  ts_month :: month_of_year
  ts_day :: nat
  ts_hour :: nat

text \<open>The columns the program reads from the CSV file, as \<^verbatim>\<open>read_csv\<close> returns them.\<close>

record row =
  name :: "string option"
  origin :: "string option"
  dest :: "string option"
  hour :: "int option"
  dep_delay :: "rat option"
  arr_delay :: "rat option"
  distance :: "rat option"
  time_hour :: "timestamp option"

text \<open>A row after \<^verbatim>\<open>load_data\<close>: the columns read, and the four derived ones.\<close>

record flight = row +
  month_name :: "string option"
  hour_formatted :: string
  is_delayed :: bool
  total_delay :: "rat option"

text \<open>
  The type \<^verbatim>\<open>read_csv\<close> gives a delay column: \<^verbatim>\<open>int64\<close> when every cell is an integer
  literal and none is missing, \<^verbatim>\<open>float64\<close> otherwise. The frame \<^verbatim>\<open>read_csv\<close> returns is
  its rows with the types of the two delay columns.
\<close>

datatype dtype = Int64 | Float64

record frame =
  data_rows :: "row list"
  dep_delay_dtype :: dtype
  arr_delay_dtype :: dtype

datatype error = ValueError | IndexError | TypeError

section \<open>Loading\<close>

text \<open>\<^verbatim>\<open>strftime('%B')\<close>, in the C locale.\<close>

fun strftime_B :: "timestamp \<Rightarrow> string" where
  "strftime_B t = (case ts_month t of
     Jan \<Rightarrow> ''January'' | Feb \<Rightarrow> ''February'' | Mar \<Rightarrow> ''March'' | Apr \<Rightarrow> ''April''
   | May \<Rightarrow> ''May'' | Jun \<Rightarrow> ''June'' | Jul \<Rightarrow> ''July'' | Aug \<Rightarrow> ''August''
   | Sep \<Rightarrow> ''September'' | Oct \<Rightarrow> ''October'' | Nov \<Rightarrow> ''November''
   | Dec \<Rightarrow> ''December'')"

text \<open>Decimal digits of a natural number, and Python's \<^verbatim>\<open>f"{x:02d}"\<close> of an integer:
  zero-padded to width two, the sign counted in the width.\<close>

definition digit_char :: "nat \<Rightarrow> char" where
  "digit_char d = char_of (48 + d)"

fun str_nat :: "nat \<Rightarrow> string" where
  "str_nat n = (if n < 10 then [digit_char n] else str_nat (n div 10) @ [digit_char (n mod 10)])"

declare str_nat.simps [simp del]

definition format_02d :: "int \<Rightarrow> string" where
  "format_02d x =
     (if x < 0 then CHR ''-'' # str_nat (nat (- x))
      else if x < 10 then CHR ''0'' # str_nat (nat x)
      else str_nat (nat x))"

text \<open>
  Line 28: \<^verbatim>\<open>df['dep_delay'] > 15\<close>. A comparison with NaN is False, so the column is
  boolean with no missing cell. Line 29: \<^verbatim>\<open>df['dep_delay'] + df['arr_delay']\<close>; NaN plus
  anything is NaN. The sum of two \<^verbatim>\<open>int64\<close> columns is an \<^verbatim>\<open>int64\<close> column, whose
  addition wraps around at \<open>2\<^sup>6\<^sup>3\<close>; when either column is \<^verbatim>\<open>float64\<close> the sum is a
  float sum.
\<close>

definition wrap_int64 :: "int \<Rightarrow> int" where
  "wrap_int64 i = (i + 2 ^ 63) mod 2 ^ 64 - 2 ^ 63"

definition gt_scalar :: "rat option \<Rightarrow> rat \<Rightarrow> bool" where
  "gt_scalar cell c = (case cell of None \<Rightarrow> False | Some v \<Rightarrow> v > c)"

definition add_cells :: "dtype \<Rightarrow> dtype \<Rightarrow> rat option \<Rightarrow> rat option \<Rightarrow> rat option" where
  "add_cells da db a b =
     (case (a, b) of
        (Some x, Some y) \<Rightarrow>
          Some (if da = Int64 \<and> db = Int64 then of_int (wrap_int64 (\<lfloor>x\<rfloor> + \<lfloor>y\<rfloor>)) else x + y)
      | _ \<Rightarrow> None)"

definition derive :: "dtype \<Rightarrow> dtype \<Rightarrow> row \<Rightarrow> int \<Rightarrow> flight" where
  "derive da db r h = row.extend r
     \<lparr> month_name = map_option strftime_B (time_hour r),
       hour_formatted = format_02d h @ '':00'',
       is_delayed = gt_scalar (dep_delay r) 15,
       total_delay = add_cells da db (dep_delay r) (arr_delay r) \<rparr>"

text \<open>
  \<^verbatim>\<open>load_data\<close>, from the frame \<^verbatim>\<open>read_csv\<close> returned. An \<^verbatim>\<open>hour\<close> column with a
  missing cell is a float column, and the format code \<^verbatim>\<open>d\<close> of line 25 raises ValueError
  on a float; otherwise every row gets its derived columns.
\<close>

fun load_rows :: "dtype \<Rightarrow> dtype \<Rightarrow> row list \<Rightarrow> error + flight list" where
  "load_rows da db [] = Inr []"
| "load_rows da db (r # rs) =
     (case hour r of
        None \<Rightarrow> Inl ValueError
      | Some h \<Rightarrow> (case load_rows da db rs of
                    Inl e \<Rightarrow> Inl e
                  | Inr fs \<Rightarrow> Inr (derive da db r h # fs)))"

definition load_data :: "frame \<Rightarrow> error + flight list" where
  "load_data fr = load_rows (dep_delay_dtype fr) (arr_delay_dtype fr) (data_rows fr)"

section \<open>The pandas operations the reports use\<close>

text \<open>\<^verbatim>\<open>Series.mean\<close> skips NaN and is NaN on no value; \<^verbatim>\<open>count\<close> counts the cells
  that are not NaN. The mean of a boolean column counts True as 1.\<close>

definition present :: "'a option list \<Rightarrow> 'a list" where
  "present col = List.map_filter id col"

definition mean :: "rat option list \<Rightarrow> rat option" where
  "mean col = (let vs = present col
               in if vs = [] then None else Some (sum_list vs / of_nat (length vs)))"

definition mean_bool :: "bool list \<Rightarrow> rat option" where
  "mean_bool col = (if col = [] then None
                    else Some (of_nat (length (filter id col)) / of_nat (length col)))"

definition count :: "rat option list \<Rightarrow> nat" where
  "count col = length (present col)"

text \<open>
  \<^verbatim>\<open>groupby\<close> with its defaults \<^verbatim>\<open>sort=True, dropna=True\<close>: one group per key value that
  occurs, the groups in ascending key order, a row with a missing key in no group, the
  rows of a group in frame order. A key of two columns is the pair, missing when either
  column is.
\<close>

definition group_keys :: "('r \<Rightarrow> 'k::linorder option) \<Rightarrow> 'r list \<Rightarrow> 'k list" where
  "group_keys key rows = sort (remdups (List.map_filter key rows))"

definition groupby :: "('r \<Rightarrow> 'k::linorder option) \<Rightarrow> 'r list \<Rightarrow> ('k \<times> 'r list) list" where
  "groupby key rows =
     map (\<lambda>k. (k, filter (\<lambda>r. key r = Some k) rows)) (group_keys key rows)"

definition key2 :: "('r \<Rightarrow> 'a option) \<Rightarrow> ('r \<Rightarrow> 'b option) \<Rightarrow> 'r \<Rightarrow> ('a \<times> 'b) option" where
  "key2 f g r = (case (f r, g r) of (Some a, Some b) \<Rightarrow> Some (a, b) | _ \<Rightarrow> None)"

text \<open>
  \<^verbatim>\<open>sort_values(col, ascending=False)\<close>, as pandas' \<^verbatim>\<open>nargsort\<close> does it: the rows whose
  cell is NaN are set aside, the others are reversed, their values are handed to numpy's
  \<^verbatim>\<open>argsort(kind='quicksort')\<close>, the positions it returns are reversed, the rows are
  taken at these positions, and the NaN rows are appended (\<^verbatim>\<open>na_position='last'\<close>).
  numpy's quicksort is not stable and the positions it returns for equal values depend
  on the numpy build, so \<open>argsort\<close> is a parameter of the model. A position outside the
  list, which \<open>argsort\<close> never returns, selects no row.
\<close>

definition take_rows :: "'a list \<Rightarrow> nat list \<Rightarrow> 'a list" where
  "take_rows xs idx = List.map_filter (\<lambda>i. if i < length xs then Some (xs ! i) else None) idx"

definition sort_values_desc ::
  "(rat list \<Rightarrow> nat list) \<Rightarrow> ('a \<Rightarrow> rat option) \<Rightarrow> 'a list \<Rightarrow> 'a list" where
  "sort_values_desc argsort col xs =
     (let non_nans = rev (List.map_filter (\<lambda>x. map_option (\<lambda>v. (v, x)) (col x)) xs);
          indexer = rev (argsort (map fst non_nans));
          nans = filter (\<lambda>x. col x = None) xs
      in take_rows (map snd non_nans) indexer @ nans)"

text \<open>\<^verbatim>\<open>head(n)\<close> is the slice \<^verbatim>\<open>[:n]\<close>: the first \<open>n\<close> rows, and all but the last
  \<open>-n\<close> rows when \<open>n\<close> is negative.\<close>

definition head :: "int \<Rightarrow> 'a list \<Rightarrow> 'a list" where
  "head n xs = (if 0 \<le> n then take (nat n) xs else take (length xs - nat (- n)) xs)"

text \<open>\<^verbatim>\<open>reindex(labels)\<close> on a frame of two columns with a unique index: one row per
  label, in the labels' order, NaN in both columns for a label the index does not have.\<close>

definition reindex ::
  "'k list \<Rightarrow> ('k \<times> rat option \<times> rat option) list \<Rightarrow> ('k \<times> rat option \<times> rat option) list" where
  "reindex labels frame =
     map (\<lambda>l. case map_of frame l of None \<Rightarrow> (l, None, None) | Some cols \<Rightarrow> (l, cols)) labels"

text \<open>
  \<^verbatim>\<open>Series.mode()\<close>: the values of highest frequency among the cells that are not NaN,
  sorted ascending. \<^verbatim>\<open>.iloc[0]\<close> raises IndexError on an empty series.
\<close>

definition mode :: "'a::linorder option list \<Rightarrow> 'a list" where
  "mode col =
     (let vals = present col;
          uniques = sort (remdups vals);
          top = fold max (map (count_list vals) uniques) 0
      in filter (\<lambda>v. count_list vals v = top) uniques)"

definition iloc0 :: "'a list \<Rightarrow> error + 'a" where
  "iloc0 xs = (case xs of [] \<Rightarrow> Inl IndexError | x # _ \<Rightarrow> Inr x)"

text \<open>\<^verbatim>\<open>Series.idxmax()\<close>: the label of the first occurrence of the largest value, NaN
  cells skipped; ValueError on an empty series.\<close>

definition idxmax :: "('k \<times> rat option) list \<Rightarrow> error + 'k" where
  "idxmax s =
     (case List.map_filter (\<lambda>(k, cell). map_option (Pair k) cell) s of
        [] \<Rightarrow> Inl ValueError
      | first # rest \<Rightarrow>
          Inr (fst (fold (\<lambda>(k, v) (bk, bv). if bv < v then (k, v) else (bk, bv)) rest first)))"

text \<open>
  \<^verbatim>\<open>numpy.histogram\<close> with an integer number of bins, which \<^verbatim>\<open>sns.histplot\<close> computes
  the bars from: equal-width bins from the least to the greatest value (from 0 to 1 on
  no value, widened by one half on each side when all values are equal), every bin
  closed on the left and open on the right but the last, which is closed.
\<close>

definition bin_range :: "rat list \<Rightarrow> rat \<times> rat" where
  "bin_range vals =
     (case vals of
        [] \<Rightarrow> (0, 1)
      | v # vs \<Rightarrow> (let lo = fold min vs v; hi = fold max vs v
                  in if lo = hi then (lo - 1 / 2, hi + 1 / 2) else (lo, hi)))"

definition bin_index :: "nat \<Rightarrow> rat \<times> rat \<Rightarrow> rat \<Rightarrow> nat" where
  "bin_index bins edges v =
     (let (lo, hi) = edges
      in if v = hi then bins - 1 else nat \<lfloor>(v - lo) * of_nat bins / (hi - lo)\<rfloor>)"

definition histogram :: "nat \<Rightarrow> rat list \<Rightarrow> nat list" where
  "histogram bins vals =
     map (\<lambda>i. length (filter (\<lambda>v. bin_index bins (bin_range vals) v = i) vals)) [0..<bins]"

section \<open>The analyzer and its reports\<close>

text \<open>
  The state a method runs in: the data frame \<^verbatim>\<open>self.df\<close> and the image files of the
  working directory. A figure is modelled as the data it draws; colours, titles and
  sizes are left out. A method returns its outcome, the error it raises or the value it
  returns, and the state it leaves; a method that raises while drawing has saved no file.
\<close>

datatype figure =
    DelayDistribution "nat list"
  | CarrierPerformance "(string \<times> rat option) list"
  | HourlyDelays "(string \<times> rat option) list"
  | RouteAnalysis "((string \<times> string) \<times> rat option) list"
  | MonthlyTrends "(string \<times> rat option \<times> rat option) list"

record state =
  df :: "flight list"
  files :: "string \<rightharpoonup> figure"

definition savefig :: "string \<Rightarrow> figure \<Rightarrow> state \<Rightarrow> state" where
  "savefig fname fig s = s\<lparr>files := (files s)(fname \<mapsto> fig)\<rparr>"

text \<open>Lines 36 to 48. \<^verbatim>\<open>df['name'] == carrier\<close> is False on a missing name, and
  \<^verbatim>\<open>data['dep_delay'] > 0\<close> is False on a missing delay.\<close>

definition plot_delay_distribution :: "string option \<Rightarrow> state \<Rightarrow> unit \<times> state" where
  "plot_delay_distribution carrier s =
     (let data = (case carrier of
                    None \<Rightarrow> df s
                  | Some c \<Rightarrow> filter (\<lambda>r. name r = Some c) (df s));
          positive = filter (\<lambda>r. gt_scalar (dep_delay r) 0) data
      in ((), savefig ''delay_distribution.png''
                (DelayDistribution (histogram 50 (present (map dep_delay positive)))) s))"

text \<open>Lines 50 to 68. A row of the result is the carrier with the means of
  \<^verbatim>\<open>is_delayed\<close> and of \<^verbatim>\<open>dep_delay\<close> over its group. The bar plot of line 59
  raises IndexError on a frame with no row, before the figure is saved and before the
  return.\<close>

definition carrier_agg :: "string \<times> flight list \<Rightarrow> string \<times> rat option \<times> rat option" where
  "carrier_agg g = (fst g, mean_bool (map is_delayed (snd g)), mean (map dep_delay (snd g)))"

definition plot_carrier_performance ::
  "(rat list \<Rightarrow> nat list) \<Rightarrow> state \<Rightarrow>
     (error + (string \<times> rat option \<times> rat option) list) \<times> state" where
  "plot_carrier_performance argsort s =
     (let carrier_stats =
            sort_values_desc argsort (\<lambda>r. fst (snd r))
              (map carrier_agg (groupby name (df s)))
      in if carrier_stats = [] then (Inl IndexError, s)
         else (Inr carrier_stats,
               savefig ''carrier_performance.png''
                 (CarrierPerformance (map (\<lambda>r. (fst r, fst (snd r))) carrier_stats)) s))"

text \<open>Lines 70 to 82; the method returns nothing. On a table with no row, which is the
  table of a file with no data line, the delay column holds no number and the line plot
  of line 75 raises TypeError.\<close>

definition plot_hourly_delays :: "state \<Rightarrow> (error + unit) \<times> state" where
  "plot_hourly_delays s =
     (let hourly_delays =
            map (\<lambda>g. (fst g, mean (map dep_delay (snd g))))
              (groupby (\<lambda>r. Some (hour_formatted r)) (df s))
      in if df s = [] then (Inl TypeError, s)
         else (Inr (), savefig ''hourly_delays.png'' (HourlyDelays hourly_delays) s))"

text \<open>Lines 84 to 102. A row of the result is the route with the \<^verbatim>\<open>mean\<close> and the
  \<^verbatim>\<open>count\<close> of \<^verbatim>\<open>dep_delay\<close> over its group. The bar plot of line 93 raises
  IndexError when the truncated frame has no row, before the figure is saved and before
  the return.\<close>

definition route_agg ::
  "(string \<times> string) \<times> flight list \<Rightarrow> (string \<times> string) \<times> rat option \<times> nat" where
  "route_agg g = (fst g, mean (map dep_delay (snd g)), count (map dep_delay (snd g)))"

definition plot_route_analysis ::
  "(rat list \<Rightarrow> nat list) \<Rightarrow> int \<Rightarrow> state \<Rightarrow>
     (error + ((string \<times> string) \<times> rat option \<times> nat) list) \<times> state" where
  "plot_route_analysis argsort top_n s =
     (let route_delays =
            head top_n
              (sort_values_desc argsort (\<lambda>r. fst (snd r))
                 (map route_agg (groupby (key2 origin dest) (df s))))
      in if route_delays = [] then (Inl IndexError, s)
         else (Inr route_delays,
               savefig ''route_analysis.png''
                 (RouteAnalysis (map (\<lambda>r. (fst r, fst (snd r))) route_delays)) s))"

text \<open>Lines 104 to 128.\<close>

definition month_order :: "string list" where
  "month_order = [''January'', ''February'', ''March'', ''April'', ''May'', ''June'',
                  ''July'', ''August'', ''September'', ''October'', ''November'', ''December'']"

definition month_agg :: "string \<times> flight list \<Rightarrow> string \<times> rat option \<times> rat option" where
  "month_agg g = (fst g, mean (map dep_delay (snd g)), mean (map arr_delay (snd g)))"

definition plot_monthly_trends ::
  "state \<Rightarrow> (string \<times> rat option \<times> rat option) list \<times> state" where
  "plot_monthly_trends s =
     (let monthly_stats = reindex month_order (map month_agg (groupby month_name (df s)))
      in (monthly_stats, savefig ''monthly_trends.png'' (MonthlyTrends monthly_stats) s))"

text \<open>Lines 130 to 142. The entries of the dictionary are evaluated in the order
  written, so the first lookup that raises decides the error.\<close>

record summary =
  total_flights :: nat
  average_departure_delay :: "rat option"
  average_arrival_delay :: "rat option"
  percentage_delayed_flights :: "rat option"
  most_common_origin :: string
  most_common_destination :: string
  carrier_with_most_delays :: string
  average_flight_distance :: "rat option"

definition generate_summary_statistics :: "state \<Rightarrow> error + summary" where
  "generate_summary_statistics s =
     (case iloc0 (mode (map origin (df s))) of
        Inl e \<Rightarrow> Inl e
      | Inr mco \<Rightarrow>
     (case iloc0 (mode (map dest (df s))) of
        Inl e \<Rightarrow> Inl e
      | Inr mcd \<Rightarrow>
     (case idxmax (map (\<lambda>g. (fst g, mean_bool (map is_delayed (snd g))))
                    (groupby name (df s))) of
        Inl e \<Rightarrow> Inl e
      | Inr cmd \<Rightarrow>
          Inr \<lparr> total_flights = length (df s),
                average_departure_delay = mean (map dep_delay (df s)),
                average_arrival_delay = mean (map arr_delay (df s)),
                percentage_delayed_flights =
                  map_option (\<lambda>m. m * 100) (mean_bool (map is_delayed (df s))),
                most_common_origin = mco,
                most_common_destination = mcd,
                carrier_with_most_delays = cmd,
                average_flight_distance = mean (map distance (df s)) \<rparr>)))"

text \<open>The five reports as calls, to run them in sequence. A call that raises leaves
  its error as the outcome, and the caller goes on with the next call.\<close>

datatype report =
    Delay_distribution "string option"
  | Carrier_performance
  | Hourly_delays
  | Route_analysis int
  | Monthly_trends

datatype returned =
    Nothing
  | Carrier_stats "(string \<times> rat option \<times> rat option) list"
  | Route_delays "((string \<times> string) \<times> rat option \<times> nat) list"
  | Monthly_stats "(string \<times> rat option \<times> rat option) list"

fun call :: "(rat list \<Rightarrow> nat list) \<Rightarrow> report \<Rightarrow> state \<Rightarrow> (error + returned) \<times> state" where
  "call argsort (Delay_distribution c) s = (Inr Nothing, snd (plot_delay_distribution c s))"
| "call argsort Carrier_performance s =
     (let (r, s') = plot_carrier_performance argsort s in (map_sum id Carrier_stats r, s'))"
| "call argsort Hourly_delays s =
     (let (r, s') = plot_hourly_delays s in (map_sum id (\<lambda>_. Nothing) r, s'))"
| "call argsort (Route_analysis n) s =
     (let (r, s') = plot_route_analysis argsort n s in (map_sum id Route_delays r, s'))"
| "call argsort Monthly_trends s =
     (let (r, s') = plot_monthly_trends s in (Inr (Monthly_stats r), s'))"

fun filename :: "report \<Rightarrow> string" where
  "filename (Delay_distribution c) = ''delay_distribution.png''"
| "filename Carrier_performance = ''carrier_performance.png''"
| "filename Hourly_delays = ''hourly_delays.png''"
| "filename (Route_analysis n) = ''route_analysis.png''"
| "filename Monthly_trends = ''monthly_trends.png''"

fun run ::
  "(rat list \<Rightarrow> nat list) \<Rightarrow> report list \<Rightarrow> state \<Rightarrow> (error + returned) list \<times> state" where
  "run argsort [] s = ([], s)"
| "run argsort (m # ms) s =
     (let (r, s') = call argsort m s; (rs, s'') = run argsort ms s' in (r # rs, s''))"

section \<open>Notions of the specification\<close>

text \<open>What numpy promises of \<open>argsort\<close> whatever the kind of sort: the positions of the
  list, each once, in an order in which the values ascend.\<close>

definition sorts :: "(rat list \<Rightarrow> nat list) \<Rightarrow> bool" where
  "sorts argsort \<longleftrightarrow>
     (\<forall>vs. distinct (argsort vs) \<and> set (argsort vs) = {0..<length vs}
         \<and> sorted (map (\<lambda>i. vs ! i) (argsort vs)))"

text \<open>The rows whose cell in a column is a number, and those whose cell is NaN.\<close>

definition notna_rows :: "('a \<Rightarrow> rat option) \<Rightarrow> 'a list \<Rightarrow> 'a list" where
  "notna_rows col xs = filter (\<lambda>x. col x \<noteq> None) xs"

definition isna_rows :: "('a \<Rightarrow> rat option) \<Rightarrow> 'a list \<Rightarrow> 'a list" where
  "isna_rows col xs = filter (\<lambda>x. col x = None) xs"

text \<open>The order the reports sort by, descending with NaN last: \<open>a\<close> may stand before
  \<open>b\<close> when \<open>b\<close> is NaN, or both are numbers and \<open>a\<close> is at least \<open>b\<close>.\<close>

definition nan_last_ge :: "rat option \<Rightarrow> rat option \<Rightarrow> bool" where
  "nan_last_ge a b =
     (case b of None \<Rightarrow> True | Some y \<Rightarrow> (case a of None \<Rightarrow> False | Some x \<Rightarrow> y \<le> x))"

text \<open>The rows of one carrier, and the share of delayed rows in a list of rows.\<close>

definition carrier_group :: "state \<Rightarrow> string \<Rightarrow> flight list" where
  "carrier_group s c = filter (\<lambda>r. name r = Some c) (df s)"

definition delay_rate :: "flight list \<Rightarrow> rat" where
  "delay_rate g = of_nat (length (filter is_delayed g)) / of_nat (length g)"

text \<open>The values of a column in the order they first appear, each once.\<close>

fun first_seen :: "'a list \<Rightarrow> 'a list" where
  "first_seen [] = []"
| "first_seen (x # xs) = x # filter (\<lambda>y. y \<noteq> x) (first_seen xs)"

text \<open>The rows of one month, and of one route; the number of routes.\<close>

definition month_group :: "state \<Rightarrow> string \<Rightarrow> flight list" where
  "month_group s m = filter (\<lambda>r. month_name r = Some m) (df s)"



section \<open>Example tables\<close>

text \<open>One sort that keeps the promise of \<open>argsort\<close>, to run the reports on concrete
  tables: an insertion sort of the values paired with their positions.\<close>

definition insertion_argsort :: "rat list \<Rightarrow> nat list" where
  "insertion_argsort vs = map snd (sort_key fst (zip vs [0..<length vs]))"

text \<open>A row of a small table: the carrier, the route, the two delays; hour 5 on the
  first of March 2013. The flight is the row as loaded from float columns.\<close>

definition example_row ::
  "string \<Rightarrow> string \<Rightarrow> string \<Rightarrow> rat option \<Rightarrow> rat option \<Rightarrow> row" where
  "example_row n og d dd ad =
     \<lparr> name = Some n, origin = Some og, dest = Some d, hour = Some 5,
       dep_delay = dd, arr_delay = ad, distance = Some 100,
       time_hour = Some \<lparr> ts_year = 2013, ts_month = Mar, ts_day = 1, ts_hour = 5 \<rparr> \<rparr>"

definition example_flight ::
  "string \<Rightarrow> string \<Rightarrow> string \<Rightarrow> rat option \<Rightarrow> rat option \<Rightarrow> flight" where
  "example_flight n og d dd ad = derive Float64 Float64 (example_row n og d dd ad) 5"

text \<open>A frame whose delay columns hold integers and no missing cell, and one with a
  missing arrival delay.\<close>

definition overflow_frame :: frame where
  "overflow_frame =
     \<lparr> data_rows = [example_row ''AA'' ''JFK'' ''LAX'' (Some 9223372036854775807) (Some 1),
                    example_row ''AA'' ''JFK'' ''LAX'' (Some 20) (Some 4)],
       dep_delay_dtype = Int64, arr_delay_dtype = Int64 \<rparr>"

definition boundary_frame :: frame where
  "boundary_frame =
     \<lparr> data_rows = [example_row ''AA'' ''JFK'' ''LAX'' (Some 15) (Some 3),
                    example_row ''AA'' ''JFK'' ''LAX'' (Some 16) None],
       dep_delay_dtype = Int64, arr_delay_dtype = Float64 \<rparr>"

text \<open>Two carriers with the same delay rate, in the two orders of the rows; and a table
  where the rates differ.\<close>

definition tied_carriers :: state where
  "tied_carriers =
     \<lparr> df = [example_flight ''UA'' ''JFK'' ''LAX'' (Some 20) (Some 3),
             example_flight ''AA'' ''EWR'' ''LAX'' (Some 30) None],
       files = Map.empty \<rparr>"

definition tied_carriers_swapped :: state where
  "tied_carriers_swapped =
     \<lparr> df = [example_flight ''AA'' ''EWR'' ''LAX'' (Some 30) None,
             example_flight ''UA'' ''JFK'' ''LAX'' (Some 20) (Some 3)],
       files = Map.empty \<rparr>"

definition two_carriers :: state where
  "two_carriers =
     \<lparr> df = [example_flight ''UA'' ''JFK'' ''LAX'' (Some 20) (Some 3),
             example_flight ''UA'' ''JFK'' ''LAX'' (Some 0) None,
             example_flight ''AA'' ''EWR'' ''LAX'' (Some 30) None],
       files = Map.empty \<rparr>"

text \<open>Tables for the summary: two origins and two destinations that occur once each;
  a carrier with one missing departure delay; the table of a file with no data line.\<close>

definition tied_airports :: state where
  "tied_airports =
     \<lparr> df = [example_flight ''UA'' ''JFK'' ''SFO'' (Some 20) (Some 3),
             example_flight ''AA'' ''EWR'' ''LAX'' (Some 30) None],
       files = Map.empty \<rparr>"


definition missing_delay :: state where
  "missing_delay =
     \<lparr> df = [example_flight ''AA'' ''JFK'' ''LAX'' None (Some 3),
             example_flight ''AA'' ''JFK'' ''LAX'' (Some 20) (Some 4)],
       files = Map.empty \<rparr>"

definition empty_frame :: frame where
  "empty_frame = \<lparr> data_rows = [], dep_delay_dtype = Float64, arr_delay_dtype = Float64 \<rparr>"

definition empty_table :: state where
  "empty_table = \<lparr> df = [], files = Map.empty \<rparr>"

text \<open>A carrier none of whose rows has a strictly positive departure delay.\<close>

definition punctual_carrier :: state where
  "punctual_carrier =
     \<lparr> df = [example_flight ''UA'' ''JFK'' ''LAX'' (Some 0) (Some 3),
             example_flight ''UA'' ''JFK'' ''LAX'' None None,
             example_flight ''UA'' ''JFK'' ''LAX'' (Some (- 5)) (Some 2),
             example_flight ''AA'' ''EWR'' ''LAX'' (Some 30) None],
       files = Map.empty \<rparr>"


section \<open>Facts about the pandas operations\<close>

subsection \<open>groupby\<close>

lemma set_present: "set (present col) = {v. Some v \<in> set col}"
  by (force simp: present_def List.map_filter_def image_iff)

lemma set_map_filter_key: "set (List.map_filter key rows) = {k. \<exists>r \<in> set rows. key r = Some k}"
  by (auto simp: List.map_filter_def image_iff) (metis option.sel)+

lemma set_group_keys: "set (group_keys key rows) = {k. \<exists>r \<in> set rows. key r = Some k}"
  by (simp add: group_keys_def set_map_filter_key)

lemma sorted_group_keys: "sorted_wrt (<) (group_keys key rows)"
  by (simp add: group_keys_def strict_sorted_iff)

lemma map_fst_groupby: "map fst (groupby key rows) = group_keys key rows"
  by (simp add: groupby_def comp_def)

lemma groupby_member:
  "g \<in> set (groupby key rows) \<longleftrightarrow>
     (\<exists>r \<in> set rows. key r = Some (fst g)) \<and> snd g = filter (\<lambda>r. key r = Some (fst g)) rows"
  by (cases g) (auto simp: groupby_def set_group_keys)

lemma groupby_nonempty: "g \<in> set (groupby key rows) \<Longrightarrow> snd g \<noteq> []"
  by (auto simp: groupby_member filter_empty_conv)

subsection \<open>sort_values\<close>

lemma insertion_argsort_sorts: "sorts insertion_argsort"
  unfolding sorts_def
proof (intro allI conjI)
  fix vs :: "rat list"
  let ?zs = "zip vs [0..<length vs]"
  have snd_zs: "map snd ?zs = [0..<length vs]" by simp
  have d: "distinct (map snd ?zs)" unfolding snd_zs by simp
  then have "distinct ?zs" "inj_on snd (set ?zs)" unfolding distinct_map by blast+
  then show "distinct (insertion_argsort vs)"
    by (simp add: insertion_argsort_def distinct_map)
  have "set (insertion_argsort vs) = set (map snd ?zs)"
    unfolding insertion_argsort_def set_map set_sort ..
  then show "set (insertion_argsort vs) = {0..<length vs}" unfolding snd_zs by simp
  have "vs ! snd p = fst p" if "p \<in> set ?zs" for p
    using that by (auto simp: in_set_zip)
  then have "map (\<lambda>i. vs ! i) (insertion_argsort vs) = map fst (sort_key fst ?zs)"
    by (simp add: insertion_argsort_def)
  then show "sorted (map (\<lambda>i. vs ! i) (insertion_argsort vs))" by simp
qed

lemma take_rows_in_range:
  "set idx \<subseteq> {0..<length xs} \<Longrightarrow> take_rows xs idx = map (\<lambda>i. xs ! i) idx"
  by (induction idx) (auto simp: take_rows_def)


lemma non_nan_pairs:
  "List.map_filter (\<lambda>x. map_option (\<lambda>v. (v, x)) (col x)) xs
     = map (\<lambda>x. (the (col x), x)) (notna_rows col xs)"
  by (induction xs) (auto simp: notna_rows_def split: option.splits)

lemma sort_values_desc_alt:
  "sort_values_desc argsort col xs =
     take_rows (rev (notna_rows col xs))
       (rev (argsort (map (\<lambda>x. the (col x)) (rev (notna_rows col xs)))))
     @ isna_rows col xs"
  by (simp add: sort_values_desc_def non_nan_pairs rev_map [symmetric] comp_def Let_def
      isna_rows_def)

lemma set_notna_rows: "set (notna_rows col xs) = {x \<in> set xs. col x \<noteq> None}"
  by (simp add: notna_rows_def)

lemma set_isna_rows: "set (isna_rows col xs) = {x \<in> set xs. col x = None}"
  by (simp add: isna_rows_def)

lemma length_na_rows: "length (notna_rows col xs) + length (isna_rows col xs) = length xs"
  using sum_length_filter_compl [of "\<lambda>x. col x \<noteq> None" xs]
  by (simp add: notna_rows_def isna_rows_def)

lemma distinct_map_na_rows:
  "distinct (map f xs) \<Longrightarrow> distinct (map f (notna_rows col xs))"
  "distinct (map f xs) \<Longrightarrow> distinct (map f (isna_rows col xs))"
  by (simp_all add: notna_rows_def isna_rows_def distinct_map_filter)


lemma argsort_rows:
  assumes "sorts argsort" and "length vs = length ys"
  shows "take_rows ys (rev (argsort vs)) = map (\<lambda>i. ys ! i) (rev (argsort vs))"
    and "set (take_rows ys (rev (argsort vs))) = set ys"
    and "length (take_rows ys (rev (argsort vs))) = length ys"
    and "distinct (map f ys) \<Longrightarrow> distinct (map f (take_rows ys (rev (argsort vs))))"
    and "vs = map g ys \<Longrightarrow> sorted_wrt (\<lambda>x y. g y \<le> g x) (take_rows ys (rev (argsort vs)))"
proof -
  let ?idx = "argsort vs"
  from assms(1) have d: "distinct ?idx" and r: "set ?idx = {0..<length ys}"
    and s: "sorted (map (\<lambda>i. vs ! i) ?idx)"
    unfolding sorts_def assms(2) [symmetric] by blast+
  show t: "take_rows ys (rev ?idx) = map (\<lambda>i. ys ! i) (rev ?idx)"
    by (intro take_rows_in_range) (simp add: r)
  have "set (map (\<lambda>i. ys ! i) (rev ?idx)) = (\<lambda>i. ys ! i) ` {0..<length ys}"
    by (simp add: r)
  also have "\<dots> = set ys" unfolding set_conv_nth [of ys] by auto
  finally show "set (take_rows ys (rev ?idx)) = set ys" unfolding t .
  have "length ?idx = card (set ?idx)" using d by (simp add: distinct_card)
  then show "length (take_rows ys (rev ?idx)) = length ys" by (simp add: t r)
  show "distinct (map f (take_rows ys (rev ?idx)))" if dy: "distinct (map f ys)"
  proof -
    have "inj_on (\<lambda>i. f (ys ! i)) (set ?idx)"
    proof (rule inj_onI)
      fix i j assume "i \<in> set ?idx" "j \<in> set ?idx" "f (ys ! i) = f (ys ! j)"
      then have "i < length (map f ys)" "j < length (map f ys)" "map f ys ! i = map f ys ! j"
        using r by simp_all
      with dy show "i = j" by (simp only: nth_eq_iff_index_eq)
    qed
    with d show ?thesis by (simp add: t distinct_map comp_def)
  qed
  show "sorted_wrt (\<lambda>x y. g y \<le> g x) (take_rows ys (rev ?idx))" if v: "vs = map g ys"
  proof -
    have "map (\<lambda>i. vs ! i) ?idx = map (\<lambda>i. g (ys ! i)) ?idx"
      using r by (intro map_cong) (auto simp: v)
    with s have "sorted_wrt (\<lambda>i j. g (ys ! i) \<le> g (ys ! j)) ?idx"
      by (simp add: sorted_wrt_map)
    then have "sorted_wrt (\<lambda>i j. g (ys ! j) \<le> g (ys ! i)) (rev ?idx)"
      by (simp add: sorted_wrt_rev)
    then show ?thesis by (simp add: t sorted_wrt_map)
  qed
qed

lemma set_sort_values_desc:
  assumes "sorts argsort"
  shows "set (sort_values_desc argsort col xs) = set xs"
proof -
  let ?ys = "rev (notna_rows col xs)"
  let ?A = "take_rows ?ys (rev (argsort (map (\<lambda>x. the (col x)) ?ys)))"
  have sA: "set ?A = set ?ys"
    by (rule argsort_rows(2) [OF assms]) simp
  have "set ?ys \<union> set (isna_rows col xs) = set xs"
    by (auto simp: set_notna_rows set_isna_rows)
  then show ?thesis unfolding sort_values_desc_alt set_append sA .
qed

lemma length_sort_values_desc:
  assumes "sorts argsort"
  shows "length (sort_values_desc argsort col xs) = length xs"
proof -
  let ?ys = "rev (notna_rows col xs)"
  let ?A = "take_rows ?ys (rev (argsort (map (\<lambda>x. the (col x)) ?ys)))"
  have lA: "length ?A = length ?ys"
    by (rule argsort_rows(3) [OF assms]) simp
  have "length ?ys + length (isna_rows col xs) = length xs"
    using length_na_rows [of col xs] by simp
  then show ?thesis unfolding sort_values_desc_alt length_append lA .
qed

lemma distinct_map_sort_values_desc:
  assumes "sorts argsort" and "distinct (map f xs)"
  shows "distinct (map f (sort_values_desc argsort col xs))"
proof -
  let ?ys = "rev (notna_rows col xs)"
  let ?A = "take_rows ?ys (rev (argsort (map (\<lambda>x. the (col x)) ?ys)))"
  have len: "length (map (\<lambda>x. the (col x)) ?ys) = length ?ys" by simp
  have sA: "set ?A = set ?ys"
    by (rule argsort_rows(2) [OF assms(1) len])
  have dy: "distinct (map f ?ys)"
    using distinct_map_na_rows(1) [OF assms(2), of col] by (simp add: rev_map [symmetric])
  have dA: "distinct (map f ?A)"
    by (rule argsort_rows(4) [OF assms(1) len dy])
  have dB: "distinct (map f (isna_rows col xs))"
    by (rule distinct_map_na_rows(2) [OF assms(2)])
  have inj: "inj_on f (set xs)" using assms(2) unfolding distinct_map by blast
  have "f a \<noteq> f b" if a: "a \<in> set ?A" and b: "b \<in> set (isna_rows col xs)" for a b
  proof
    assume eq: "f a = f b"
    from a have a': "a \<in> set xs" "col a \<noteq> None"
      unfolding sA set_rev set_notna_rows by blast+
    from b have b': "b \<in> set xs" "col b = None"
      unfolding set_isna_rows by blast+
    from inj_onD [OF inj eq a'(1) b'(1)] a'(2) b'(2) show False by simp
  qed
  then have "set (map f ?A) \<inter> set (map f (isna_rows col xs)) = {}"
    unfolding set_map by blast
  with dA dB show ?thesis
    unfolding sort_values_desc_alt map_append distinct_append by blast
qed

lemma sorted_sort_values_desc:
  assumes "sorts argsort"
  shows "sorted_wrt (\<lambda>x y. nan_last_ge (col x) (col y)) (sort_values_desc argsort col xs)"
proof -
  let ?ys = "rev (notna_rows col xs)"
  let ?A = "take_rows ?ys (rev (argsort (map (\<lambda>x. the (col x)) ?ys)))"
  have sA: "set ?A = set ?ys"
    by (rule argsort_rows(2) [OF assms]) simp
  have "sorted_wrt (\<lambda>x y. the (col y) \<le> the (col x)) ?A"
    by (rule argsort_rows(5) [OF assms]) simp_all
  then have "sorted_wrt (\<lambda>x y. nan_last_ge (col x) (col y)) ?A"
    by (rule sorted_wrt_mono_rel [rotated])
      (auto simp: sA set_notna_rows nan_last_ge_def)
  moreover have "sorted_wrt (\<lambda>x y. nan_last_ge (col x) (col y)) (isna_rows col xs)"
    by (rule sorted_wrt_mono_rel [of _ "\<lambda>_ _. True"])
      (auto simp: set_isna_rows nan_last_ge_def)
  moreover have "nan_last_ge (col x) (col y)" if "y \<in> set (isna_rows col xs)" for x y
    using that by (simp add: set_isna_rows nan_last_ge_def)
  ultimately show ?thesis
    unfolding sort_values_desc_alt sorted_wrt_append by blast
qed

section \<open>Derived columns\<close>

lemma load_rows_Inr:
  "load_rows da db rs = Inr fs \<Longrightarrow> f \<in> set fs \<Longrightarrow>
     \<exists>r \<in> set rs. \<exists>h. hour r = Some h \<and> f = derive da db r h"
  by (induction rs arbitrary: fs) (auto split: option.splits sum.splits)

lemma load_data_Inr:
  "load_data fr = Inr fs \<Longrightarrow> f \<in> set fs \<Longrightarrow>
     \<exists>r \<in> set (data_rows fr). \<exists>h. hour r = Some h
        \<and> f = derive (dep_delay_dtype fr) (arr_delay_dtype fr) r h"
  unfolding load_data_def by (rule load_rows_Inr)

lemma load_rows_total:
  "(\<exists>fs. load_rows da db rs = Inr fs) \<longleftrightarrow> (\<forall>r \<in> set rs. hour r \<noteq> None)"
  by (induction rs) (auto split: option.splits sum.splits)

lemma load_data_total:
  "(\<exists>fs. load_data fr = Inr fs) \<longleftrightarrow> (\<forall>r \<in> set (data_rows fr). hour r \<noteq> None)"
  unfolding load_data_def by (rule load_rows_total)

lemma derive_cols [simp]:
  "name (derive da db r h) = name r"
  "origin (derive da db r h) = origin r"
  "dest (derive da db r h) = dest r"
  "dep_delay (derive da db r h) = dep_delay r"
  "arr_delay (derive da db r h) = arr_delay r"
  "distance (derive da db r h) = distance r"
  "month_name (derive da db r h) = map_option strftime_B (time_hour r)"
  "hour_formatted (derive da db r h) = format_02d h @ '':00''"
  "is_delayed (derive da db r h) = gt_scalar (dep_delay r) 15"
  "total_delay (derive da db r h) = add_cells da db (dep_delay r) (arr_delay r)"
  by (simp_all add: derive_def row.defs)

lemma derive_dtypes:
  "da \<noteq> Int64 \<or> db \<noteq> Int64 \<Longrightarrow> derive da db r h = derive Float64 Float64 r h"
  by (auto simp: derive_def add_cells_def split: option.splits)

lemma wrap_int64_in_range: "- (2 ^ 63) \<le> i \<Longrightarrow> i < 2 ^ 63 \<Longrightarrow> wrap_int64 i = i"
  by (simp add: wrap_int64_def)

text \<open>
  C6. In a table that \<^verbatim>\<open>load_data\<close> returned, a row is delayed exactly when its
  departure delay is present and strictly above 15; a delay of exactly 15 is not delayed.
\<close>

theorem is_delayed_iff:
  assumes "load_data fr = Inr fs" and "f \<in> set fs"
  shows "(is_delayed f \<longleftrightarrow> (\<exists>d. dep_delay f = Some d \<and> 15 < d))
       \<and> (dep_delay f = Some 15 \<longrightarrow> \<not> is_delayed f)"
proof -
  from load_data_Inr [OF assms] obtain da db r h where "f = derive da db r h" by blast
  then show ?thesis by (auto simp: gt_scalar_def split: option.splits)
qed

theorem is_delayed_iff_witness:
  "load_data boundary_frame
     = Inr [example_flight ''AA'' ''JFK'' ''LAX'' (Some 15) (Some 3),
            example_flight ''AA'' ''JFK'' ''LAX'' (Some 16) None]
   \<and> \<not> is_delayed (example_flight ''AA'' ''JFK'' ''LAX'' (Some 15) (Some 3))
   \<and> is_delayed (example_flight ''AA'' ''JFK'' ''LAX'' (Some 16) None)"
proof -
  have l: "load_data boundary_frame
     = Inr [example_flight ''AA'' ''JFK'' ''LAX'' (Some 15) (Some 3),
            example_flight ''AA'' ''JFK'' ''LAX'' (Some 16) None]"
    by (simp add: load_data_def boundary_frame_def example_flight_def
        derive_dtypes [of Int64 Float64, simplified] example_row_def)
  from is_delayed_iff [OF l, of "example_flight ''AA'' ''JFK'' ''LAX'' (Some 15) (Some 3)"]
    is_delayed_iff [OF l, of "example_flight ''AA'' ''JFK'' ''LAX'' (Some 16) None"]
  show ?thesis
    by (simp add: l example_flight_def example_row_def)
qed

text \<open>
  C7, as stated, fails when both delay columns are \<^verbatim>\<open>int64\<close> and the sum leaves the
  signed 64-bit range: the departure delay 9223372036854775807 and the arrival delay 1
  have the total delay -9223372036854775808, not their sum.
\<close>

theorem total_delay_wraps_counterexample:
  "map_sum id (map total_delay) (load_data overflow_frame)
     = Inr [Some (- 9223372036854775808), Some 24]"
  by (simp add: load_data_def overflow_frame_def example_row_def add_cells_def wrap_int64_def)

text \<open>
  C7, amended. In a table that \<^verbatim>\<open>load_data\<close> returned, the total delay of a row is
  missing when either delay is missing. When both are present it is their sum in the
  arithmetic of the columns: wrapped around into the signed 64-bit range when both
  columns are \<^verbatim>\<open>int64\<close>, the sum itself otherwise; so for integer delays it is the exact
  sum whenever that sum lies in the signed 64-bit range.
\<close>

theorem total_delay_sum:
  assumes "load_data fr = Inr fs" and "f \<in> set fs"
  shows "(\<forall>a b. dep_delay f = Some a \<and> arr_delay f = Some b \<longrightarrow>
            total_delay f
              = Some (if dep_delay_dtype fr = Int64 \<and> arr_delay_dtype fr = Int64
                      then of_int (wrap_int64 (\<lfloor>a\<rfloor> + \<lfloor>b\<rfloor>)) else a + b))
       \<and> (\<forall>i j. dep_delay f = Some (of_int i) \<and> arr_delay f = Some (of_int j)
              \<and> - (2 ^ 63) \<le> i + j \<and> i + j < 2 ^ 63 \<longrightarrow>
            total_delay f = Some (of_int i + of_int j))
       \<and> (dep_delay f = None \<or> arr_delay f = None \<longrightarrow> total_delay f = None)"
proof -
  from load_data_Inr [OF assms] obtain r h
    where f: "f = derive (dep_delay_dtype fr) (arr_delay_dtype fr) r h" by blast
  have "total_delay f = Some (of_int i + of_int j)"
    if "dep_delay f = Some (of_int i)" "arr_delay f = Some (of_int j)"
      "- (2 ^ 63) \<le> i + j" "i + j < 2 ^ 63" for i j
    using that wrap_int64_in_range [OF that(3,4)]
    by (simp add: f add_cells_def)
  moreover have "total_delay f
              = Some (if dep_delay_dtype fr = Int64 \<and> arr_delay_dtype fr = Int64
                      then of_int (wrap_int64 (\<lfloor>a\<rfloor> + \<lfloor>b\<rfloor>)) else a + b)"
    if "dep_delay f = Some a" "arr_delay f = Some b" for a b
    using that by (simp add: f add_cells_def)
  moreover have "dep_delay f = None \<or> arr_delay f = None \<longrightarrow> total_delay f = None"
    by (auto simp: f add_cells_def split: option.splits)
  ultimately show ?thesis by blast
qed

theorem total_delay_sum_witness:
  "load_data boundary_frame
     = Inr [example_flight ''AA'' ''JFK'' ''LAX'' (Some 15) (Some 3),
            example_flight ''AA'' ''JFK'' ''LAX'' (Some 16) None]
   \<and> total_delay (example_flight ''AA'' ''JFK'' ''LAX'' (Some 15) (Some 3)) = Some 18
   \<and> total_delay (example_flight ''AA'' ''JFK'' ''LAX'' (Some 16) None) = None"
proof -
  have l: "load_data boundary_frame
     = Inr [example_flight ''AA'' ''JFK'' ''LAX'' (Some 15) (Some 3),
            example_flight ''AA'' ''JFK'' ''LAX'' (Some 16) None]"
    by (simp add: load_data_def boundary_frame_def example_flight_def
        derive_dtypes [of Int64 Float64, simplified] example_row_def)
  have d: "dep_delay_dtype boundary_frame = Int64" "arr_delay_dtype boundary_frame = Float64"
    by (simp_all add: boundary_frame_def)
  from total_delay_sum [OF l, of "example_flight ''AA'' ''JFK'' ''LAX'' (Some 15) (Some 3)"]
    total_delay_sum [OF l, of "example_flight ''AA'' ''JFK'' ''LAX'' (Some 16) None"]
  show ?thesis
    by (simp add: l d example_flight_def example_row_def)
qed

section \<open>Carrier performance report\<close>

lemma mean_bool_is_delayed:
  "g \<noteq> [] \<Longrightarrow> mean_bool (map is_delayed g) = Some (delay_rate g)"
  by (simp add: mean_bool_def delay_rate_def filter_map comp_def)

lemma carrier_agg_groupby:
  "row \<in> set (map carrier_agg (groupby name (df s))) \<Longrightarrow>
     (\<exists>r \<in> set (df s). name r = Some (fst row)) \<and>
     snd row = (Some (delay_rate (carrier_group s (fst row))),
                mean (map dep_delay (carrier_group s (fst row))))"
  by (auto simp: carrier_agg_def groupby_member carrier_group_def mean_bool_is_delayed
      filter_empty_conv)

lemma map_fst_carrier_agg:
  "map fst (map carrier_agg (groupby name rows)) = group_keys name rows"
  by (simp add: carrier_agg_def comp_def map_fst_groupby [symmetric])

lemma groupby_empty: "groupby key rows = [] \<longleftrightarrow> (\<forall>r \<in> set rows. key r = None)"
proof -
  have "groupby key rows = [] \<longleftrightarrow> set (group_keys key rows) = {}"
    by (simp add: groupby_def)
  also have "\<dots> \<longleftrightarrow> (\<forall>r \<in> set rows. key r = None)"
    unfolding set_group_keys by (auto, metis option.exhaust)
  finally show ?thesis .
qed

lemma sort_values_desc_empty:
  "sorts argsort \<Longrightarrow> sort_values_desc argsort col xs = [] \<longleftrightarrow> xs = []"
  using length_sort_values_desc [of argsort col xs] by (metis length_0_conv)

lemma plot_carrier_performance_cases:
  "fst (plot_carrier_performance argsort s) =
     (let carrier_stats = sort_values_desc argsort (\<lambda>r. fst (snd r))
                            (map carrier_agg (groupby name (df s)))
      in if carrier_stats = [] then Inl IndexError else Inr carrier_stats)"
  by (simp add: plot_carrier_performance_def Let_def)

text \<open>
  C1, as stated, fails on the tie order. The tables \<open>tied_carriers\<close> and
  \<open>tied_carriers_swapped\<close> hold the same two rows, of the carriers UA and AA with delay
  rate 1 each, UA first in the one and AA first in the other. \<^verbatim>\<open>groupby\<close> orders the
  groups by carrier name, so both tables hand the same frame to \<^verbatim>\<open>sort_values\<close> and
  have the same report, whatever the sort does with equal rates; with the insertion sort
  the report of both lists AA before UA.
\<close>

theorem carrier_tie_order_counterexample:
  "map carrier_agg (groupby name (df tied_carriers))
     = map carrier_agg (groupby name (df tied_carriers_swapped))
   \<and> map carrier_agg (groupby name (df tied_carriers))
     = [(''AA'', Some 1, Some 30), (''UA'', Some 1, Some 20)]
   \<and> first_seen (present (map name (df tied_carriers))) = [''UA'', ''AA'']
   \<and> first_seen (present (map name (df tied_carriers_swapped))) = [''AA'', ''UA'']
   \<and> fst (plot_carrier_performance insertion_argsort tied_carriers)
     = Inr [(''AA'', Some 1, Some 30), (''UA'', Some 1, Some 20)]"
  by code_simp

text \<open>
  C1, amended. When no row has a carrier name the report raises IndexError. Otherwise
  it returns one row per carrier name that occurs, carrying the carrier's delay rate and
  its mean departure delay, the rows in non-increasing order of delay rate. The order
  among carriers of exactly equal rate is left to the sort, which is not stable.
\<close>

theorem carrier_performance_rows:
  assumes "sorts argsort"
  shows "if \<forall>r \<in> set (df s). name r = None
         then fst (plot_carrier_performance argsort s) = Inl IndexError
         else \<exists>rows. fst (plot_carrier_performance argsort s) = Inr rows
           \<and> distinct (map fst rows)
           \<and> set (map fst rows) = {c. \<exists>r \<in> set (df s). name r = Some c}
           \<and> (\<forall>row \<in> set rows.
                 snd row = (Some (delay_rate (carrier_group s (fst row))),
                            mean (map dep_delay (carrier_group s (fst row)))))
           \<and> (\<forall>i. Suc i < length rows \<longrightarrow>
                 delay_rate (carrier_group s (fst (rows ! Suc i)))
                   \<le> delay_rate (carrier_group s (fst (rows ! i))))"
proof -
  let ?G = "map carrier_agg (groupby name (df s))"
  let ?col = "\<lambda>r :: string \<times> rat option \<times> rat option. fst (snd r)"
  define rows where "rows = sort_values_desc argsort ?col ?G"
  have empty: "rows = [] \<longleftrightarrow> (\<forall>r \<in> set (df s). name r = None)"
    unfolding rows_def sort_values_desc_empty [OF assms] by (simp add: groupby_empty)
  have out: "fst (plot_carrier_performance argsort s)
               = (if rows = [] then Inl IndexError else Inr rows)"
    unfolding rows_def plot_carrier_performance_cases Let_def ..
  have keys: "map fst ?G = group_keys name (df s)" by (rule map_fst_carrier_agg)
  have strict: "sorted_wrt (<) (map fst ?G)"
    unfolding keys by (rule sorted_group_keys)
  have set_rows: "set rows = set ?G"
    unfolding rows_def by (rule set_sort_values_desc [OF assms])
  have cols: "snd row = (Some (delay_rate (carrier_group s (fst row))),
                         mean (map dep_delay (carrier_group s (fst row))))"
    if "row \<in> set rows" for row
    using that carrier_agg_groupby [of row s] unfolding set_rows by blast
  have d: "distinct (map fst rows)"
    unfolding rows_def using strict
    by (intro distinct_map_sort_values_desc [OF assms]) (simp add: strict_sorted_iff)
  have k: "set (map fst rows) = {c. \<exists>r \<in> set (df s). name r = Some c}"
  proof -
    have "set (map fst rows) = set (map fst ?G)"
      unfolding set_map set_rows ..
    then show ?thesis by (simp only: keys set_group_keys)
  qed
  have o: "delay_rate (carrier_group s (fst (rows ! Suc i)))
             \<le> delay_rate (carrier_group s (fst (rows ! i)))" if "Suc i < length rows" for i
  proof -
    have "sorted_wrt (\<lambda>x y. nan_last_ge (?col x) (?col y)) rows"
      unfolding rows_def by (rule sorted_sort_values_desc [OF assms])
    then have "nan_last_ge (?col (rows ! i)) (?col (rows ! Suc i))"
      using that by (simp add: sorted_wrt_iff_nth_less)
    moreover have "rows ! i \<in> set rows" "rows ! Suc i \<in> set rows"
      using that by simp_all
    ultimately show ?thesis
      by (auto simp: cols nan_last_ge_def)
  qed
  show ?thesis
  proof (cases "\<forall>r \<in> set (df s). name r = None")
    case True
    then show ?thesis using out empty by simp
  next
    case False
    then have "fst (plot_carrier_performance argsort s) = Inr rows"
      using out empty by simp
    with False d k cols o show ?thesis by (simp only: if_False) blast
  qed
qed

theorem carrier_performance_rows_witness:
  "sorts insertion_argsort
   \<and> fst (plot_carrier_performance insertion_argsort two_carriers)
     = Inr [(''AA'', Some 1, Some 30), (''UA'', Some (1 / 2), Some 10)]
   \<and> fst (plot_carrier_performance insertion_argsort empty_table) = Inl IndexError"
proof -
  have e: "fst (plot_carrier_performance insertion_argsort two_carriers)
     = Inr [(''AA'', Some 1, Some 30), (''UA'', Some (1 / 2), Some 10)]"
    by code_simp
  have n: "\<forall>r \<in> set (df empty_table). name r = None"
    by (simp add: empty_table_def)
  from carrier_performance_rows [OF insertion_argsort_sorts, of empty_table] n
  have "fst (plot_carrier_performance insertion_argsort empty_table) = Inl IndexError"
    by simp
  with e insertion_argsort_sorts show ?thesis by simp
qed

section \<open>Summary statistics\<close>

lemma count_list_present: "count_list (present col) v = count_list col (Some v)"
  by (induction col) (auto simp: present_def split: option.splits)

lemma fold_max_Max: "fold max xs (a::nat) = Max (insert a (set xs))"
  using Max.set_eq_fold [of a xs] by simp

lemma mode_empty: "present col = [] \<Longrightarrow> mode col = []"
  by (simp add: mode_def)

lemma mode_props:
  fixes col :: "'a::linorder option list"
  assumes "present col \<noteq> []"
  shows "mode col \<noteq> []"
    and "\<And>m. m \<in> set (mode col) \<Longrightarrow> Some m \<in> set col"
    and "\<And>m v. m \<in> set (mode col) \<Longrightarrow> count_list col (Some v) \<le> count_list col (Some m)"
    and "\<And>m v. m \<in> set (mode col) \<Longrightarrow> count_list col (Some v) = count_list col (Some m)
           \<Longrightarrow> v \<in> set (mode col)"
    and "sorted (mode col)"
proof -
  let ?vals = "present col"
  let ?cnt = "\<lambda>v. count_list col (Some v)"
  let ?top = "Max (insert 0 (?cnt ` set ?vals))"
  have mode: "mode col = filter (\<lambda>v. ?cnt v = ?top) (sort (remdups ?vals))"
    by (simp add: mode_def Let_def fold_max_Max count_list_present cong: filter_cong)
  have fin: "finite (insert 0 (?cnt ` set ?vals))" by simp
  have pos: "0 < ?cnt v" if "v \<in> set ?vals" for v
    using that count_list_0_iff [of col "Some v"] by (auto simp: set_present)
  have le: "?cnt v \<le> ?top" for v
  proof (cases "v \<in> set ?vals")
    case True then show ?thesis by (intro Max_ge) auto
  next
    case False then show ?thesis
      using count_list_0_iff [of col "Some v"] by (auto simp: set_present)
  qed
  obtain w where w: "w \<in> set ?vals" using assms by (cases ?vals) auto
  have "?top \<in> insert 0 (?cnt ` set ?vals)" by (rule Max_in) auto
  moreover have "?top \<noteq> 0" using le [of w] pos [OF w] by simp
  ultimately obtain u where u: "u \<in> set ?vals" "?cnt u = ?top" by auto
  then show "mode col \<noteq> []" by (auto simp: mode filter_empty_conv)
  show "Some m \<in> set col" if "m \<in> set (mode col)" for m
    using that by (simp add: mode set_present)
  show "?cnt v \<le> ?cnt m" if "m \<in> set (mode col)" for m v
    using that le [of v] by (simp add: mode)
  show "v \<in> set (mode col)"
    if "m \<in> set (mode col)" "?cnt v = ?cnt m" for m v
  proof -
    from that have "?cnt v = ?top" "m \<in> set ?vals" by (simp_all add: mode)
    with pos [of m] that(2) have "v \<in> set ?vals"
      using count_list_0_iff [of col "Some v"] by (auto simp: set_present)
    with \<open>?cnt v = ?top\<close> show ?thesis by (simp add: mode)
  qed
  show "sorted (mode col)" unfolding mode by (intro sorted_wrt_filter sorted_sort)
qed

lemma iloc0_mode:
  fixes col :: "'a::linorder option list"
  shows "iloc0 (mode col) = Inl e \<longleftrightarrow> e = IndexError \<and> (\<forall>c \<in> set col. c = None)"
    and "iloc0 (mode col) = Inr m \<Longrightarrow>
           Some m \<in> set col
         \<and> (\<forall>v. count_list col (Some v) \<le> count_list col (Some m))
         \<and> (\<forall>v. count_list col (Some v) = count_list col (Some m) \<longrightarrow> m \<le> v)"
proof -
  have none: "present col = [] \<longleftrightarrow> (\<forall>c \<in> set col. c = None)"
    by (induction col) (auto simp: present_def split: option.splits)
  show "iloc0 (mode col) = Inl e \<longleftrightarrow> e = IndexError \<and> (\<forall>c \<in> set col. c = None)"
    using mode_empty [of col] mode_props(1) [of col] none
    by (auto simp: iloc0_def split: list.splits)
  assume "iloc0 (mode col) = Inr m"
  then obtain rest where m: "mode col = m # rest"
    by (auto simp: iloc0_def split: list.splits)
  then have ne: "present col \<noteq> []" using mode_empty [of col] by auto
  have mem: "m \<in> set (mode col)" by (simp add: m)
  have "m \<le> v" if "count_list col (Some v) = count_list col (Some m)" for v
  proof -
    have "v \<in> set (mode col)" using mode_props(4) [OF ne mem that] .
    moreover have "sorted (m # rest)" using mode_props(5) [OF ne] by (simp add: m)
    ultimately show ?thesis by (auto simp: m)
  qed
  with mode_props(2,3) [OF ne mem] show "Some m \<in> set col
         \<and> (\<forall>v. count_list col (Some v) \<le> count_list col (Some m))
         \<and> (\<forall>v. count_list col (Some v) = count_list col (Some m) \<longrightarrow> m \<le> v)"
    by blast
qed


lemma map_filter_empty: "List.map_filter f xs = [] \<longleftrightarrow> (\<forall>x \<in> set xs. f x = None)"
  by (induction xs) (auto split: option.splits)

lemma idxmax_Inl:
  "idxmax xs = Inl e \<longleftrightarrow> e = ValueError \<and> (\<forall>x \<in> set xs. snd x = None)"
proof -
  have "List.map_filter (\<lambda>(k, cell). map_option (Pair k) cell) xs = []
          \<longleftrightarrow> (\<forall>x \<in> set xs. snd x = None)"
    by (auto simp: map_filter_empty split: prod.splits)
  then show ?thesis
    by (auto simp: idxmax_def split: list.splits)
qed

lemma idxmax_rates_Inl:
  "idxmax (map (\<lambda>g. (fst g, mean_bool (map is_delayed (snd g)))) (groupby name rows)) = Inl e
     \<longleftrightarrow> e = ValueError \<and> (\<forall>r \<in> set rows. name r = None)"
proof -
  have "mean_bool (map is_delayed (snd g)) \<noteq> None" if "g \<in> set (groupby name rows)" for g
    using groupby_nonempty [OF that] by (simp add: mean_bool_def)
  then have "(\<forall>x \<in> set (map (\<lambda>g. (fst g, mean_bool (map is_delayed (snd g)))) (groupby name rows)).
               snd x = None) \<longleftrightarrow> groupby name rows = []"
    by (cases "groupby name rows") auto
  then show ?thesis by (simp only: idxmax_Inl groupby_empty)
qed

lemma summary_cases:
  "generate_summary_statistics s = Inl e \<longleftrightarrow>
     (e = IndexError \<and> ((\<forall>r \<in> set (df s). origin r = None) \<or> (\<forall>r \<in> set (df s). dest r = None)))
   \<or> (e = ValueError \<and> (\<exists>r \<in> set (df s). origin r \<noteq> None) \<and> (\<exists>r \<in> set (df s). dest r \<noteq> None)
        \<and> (\<forall>r \<in> set (df s). name r = None))"
  using iloc0_mode(1) [of "map origin (df s)"] iloc0_mode(1) [of "map dest (df s)"]
    idxmax_rates_Inl [of "df s"]
  by (auto simp: generate_summary_statistics_def split: sum.splits)

lemma summary_Inr:
  assumes "generate_summary_statistics s = Inr sm"
  shows "iloc0 (mode (map origin (df s))) = Inr (most_common_origin sm)"
    and "iloc0 (mode (map dest (df s))) = Inr (most_common_destination sm)"
    and "percentage_delayed_flights sm = map_option (\<lambda>m. m * 100) (mean_bool (map is_delayed (df s)))"
    and "average_departure_delay sm = mean (map dep_delay (df s))"
    and "total_flights sm = length (df s)"
  using assms by (auto simp: generate_summary_statistics_def split: sum.splits)



text \<open>
  C2, as stated, fails on ties. In the table \<open>tied_airports\<close> the origins JFK and EWR
  occur once each, JFK in the first row, and the destinations SFO and LAX once each, SFO
  in the first row; the summary names EWR and LAX, the least of the tied values, because
  \<^verbatim>\<open>mode()\<close> returns the most frequent values sorted.
\<close>

theorem most_common_tie_counterexample:
  "map_sum id most_common_origin (generate_summary_statistics tied_airports) = Inr ''EWR''
   \<and> map_sum id most_common_destination (generate_summary_statistics tied_airports) = Inr ''LAX''
   \<and> map origin (df tied_airports) = [Some ''JFK'', Some ''EWR'']
   \<and> map dest (df tied_airports) = [Some ''SFO'', Some ''LAX'']"
  by code_simp

text \<open>
  C2, amended. The summary is returned exactly when some origin, some destination and
  some carrier name are present (otherwise a lookup raises). Its most common origin is a
  value of the origin column of highest frequency, and among the values tied for the
  highest frequency it is the least in string order; the same for the destination.
\<close>

theorem most_common_least:
  "((\<exists>sm. generate_summary_statistics s = Inr sm) \<longleftrightarrow>
      (\<exists>r \<in> set (df s). origin r \<noteq> None) \<and> (\<exists>r \<in> set (df s). dest r \<noteq> None)
        \<and> (\<exists>r \<in> set (df s). name r \<noteq> None))
   \<and> (\<forall>sm. generate_summary_statistics s = Inr sm \<longrightarrow>
         (\<exists>r \<in> set (df s). origin r = Some (most_common_origin sm))
       \<and> (\<forall>v. count_list (map origin (df s)) (Some v)
                 \<le> count_list (map origin (df s)) (Some (most_common_origin sm)))
       \<and> (\<forall>v. count_list (map origin (df s)) (Some v)
                 = count_list (map origin (df s)) (Some (most_common_origin sm))
               \<longrightarrow> most_common_origin sm \<le> v)
       \<and> (\<exists>r \<in> set (df s). dest r = Some (most_common_destination sm))
       \<and> (\<forall>v. count_list (map dest (df s)) (Some v)
                 \<le> count_list (map dest (df s)) (Some (most_common_destination sm)))
       \<and> (\<forall>v. count_list (map dest (df s)) (Some v)
                 = count_list (map dest (df s)) (Some (most_common_destination sm))
               \<longrightarrow> most_common_destination sm \<le> v))"
proof -
  have "(\<exists>sm. generate_summary_statistics s = Inr sm) \<longleftrightarrow>
      (\<exists>r \<in> set (df s). origin r \<noteq> None) \<and> (\<exists>r \<in> set (df s). dest r \<noteq> None)
        \<and> (\<exists>r \<in> set (df s). name r \<noteq> None)"
  proof (cases "generate_summary_statistics s")
    case (Inl e)
    with summary_cases [of s e] show ?thesis by auto
  next
    case (Inr sm)
    have "generate_summary_statistics s \<noteq> Inl IndexError"
         "generate_summary_statistics s \<noteq> Inl ValueError"
      using Inr by simp_all
    then show ?thesis
      unfolding summary_cases using Inr by blast
  qed
  moreover have "(\<exists>r \<in> set (df s). origin r = Some (most_common_origin sm))
       \<and> (\<forall>v. count_list (map origin (df s)) (Some v)
                 \<le> count_list (map origin (df s)) (Some (most_common_origin sm)))
       \<and> (\<forall>v. count_list (map origin (df s)) (Some v)
                 = count_list (map origin (df s)) (Some (most_common_origin sm))
               \<longrightarrow> most_common_origin sm \<le> v)
       \<and> (\<exists>r \<in> set (df s). dest r = Some (most_common_destination sm))
       \<and> (\<forall>v. count_list (map dest (df s)) (Some v)
                 \<le> count_list (map dest (df s)) (Some (most_common_destination sm)))
       \<and> (\<forall>v. count_list (map dest (df s)) (Some v)
                 = count_list (map dest (df s)) (Some (most_common_destination sm))
               \<longrightarrow> most_common_destination sm \<le> v)"
    if "generate_summary_statistics s = Inr sm" for sm
    using iloc0_mode(2) [OF summary_Inr(1) [OF that]] iloc0_mode(2) [OF summary_Inr(2) [OF that]]
    by (simp add: image_iff) metis
  ultimately show ?thesis by blast
qed

theorem most_common_least_witness:
  "map_sum id most_common_origin (generate_summary_statistics two_carriers) = Inr ''JFK''
   \<and> count_list (map origin (df two_carriers)) (Some ''EWR'')
       \<le> count_list (map origin (df two_carriers)) (Some ''JFK'')"
proof -
  have e: "map_sum id most_common_origin (generate_summary_statistics two_carriers) = Inr ''JFK''"
    by code_simp
  then obtain sm where sm: "generate_summary_statistics two_carriers = Inr sm"
    "most_common_origin sm = ''JFK''"
    by (cases "generate_summary_statistics two_carriers") auto
  from most_common_least [of two_carriers] sm e show ?thesis
    by metis
qed



text \<open>
  C10. On a table with no row the summary is not returned: the lookup of the most
  common origin raises IndexError, the first error in the order the entries are
  evaluated; the lookup of the carrier with most delays would raise ValueError.
\<close>

theorem empty_table_raises:
  "df s = [] \<Longrightarrow>
     generate_summary_statistics s = Inl IndexError
   \<and> iloc0 (mode (map origin (df s))) = Inl IndexError
   \<and> idxmax (map (\<lambda>g. (fst g, mean_bool (map is_delayed (snd g)))) (groupby name (df s)))
       = Inl ValueError"
  by (simp add: generate_summary_statistics_def mode_def present_def iloc0_def
      idxmax_def groupby_def group_keys_def)

theorem empty_table_raises_witness:
  "load_data empty_frame = Inr (df empty_table)
   \<and> generate_summary_statistics empty_table = Inl IndexError"
  using empty_table_raises [of empty_table]
  by (simp add: empty_table_def load_data_def empty_frame_def)

section \<open>Delay distribution report\<close>

lemma histogram_empty: "histogram bins [] = replicate bins 0"
  by (simp add: histogram_def map_replicate_const)

lemma present_empty [simp]: "present [] = []"
  by (simp add: present_def)

text \<open>
  C3. When no row of the carrier has a strictly positive departure delay, which includes
  a carrier that no row has, the delay distribution report returns, leaves the table
  as it was, and saves a histogram of 50 buckets, every count zero.
\<close>

theorem absent_carrier_histogram:
  assumes "\<forall>r \<in> set (df s). name r = Some c \<longrightarrow> \<not> gt_scalar (dep_delay r) 0"
  shows "plot_delay_distribution (Some c) s
           = ((), s\<lparr>files := (files s)(''delay_distribution.png'' \<mapsto>
                                       DelayDistribution (replicate 50 0))\<rparr>)"
proof -
  have "filter (\<lambda>r. gt_scalar (dep_delay r) 0) (filter (\<lambda>r. name r = Some c) (df s)) = []"
    using assms by (auto simp: filter_empty_conv)
  then show ?thesis
    by (simp add: plot_delay_distribution_def savefig_def histogram_empty)
qed


theorem absent_carrier_histogram_witness:
  "plot_delay_distribution (Some ''DL'') punctual_carrier
     = ((), punctual_carrier\<lparr>files := (files punctual_carrier)(''delay_distribution.png'' \<mapsto>
                                       DelayDistribution (replicate 50 0))\<rparr>)
   \<and> plot_delay_distribution (Some ''UA'') punctual_carrier
     = ((), punctual_carrier\<lparr>files := (files punctual_carrier)(''delay_distribution.png'' \<mapsto>
                                       DelayDistribution (replicate 50 0))\<rparr>)"
  using absent_carrier_histogram [of punctual_carrier "''DL''"]
    absent_carrier_histogram [of punctual_carrier "''UA''"]
  by (simp add: punctual_carrier_def example_flight_def example_row_def gt_scalar_def)

section \<open>Monthly trends report\<close>

lemma map_of_keyed:
  "map_of (map (\<lambda>k. (k, f k)) ks) l = (if l \<in> set ks then Some (f l) else None)"
  by (induction ks) auto

lemma month_agg_groupby:
  "map month_agg (groupby month_name rows)
     = map (\<lambda>k. (k, mean (map dep_delay (filter (\<lambda>r. month_name r = Some k) rows)),
                    mean (map arr_delay (filter (\<lambda>r. month_name r = Some k) rows))))
         (group_keys month_name rows)"
  by (simp add: groupby_def month_agg_def comp_def)

lemma map_fst_reindex: "map fst (reindex labels frame) = labels"
  by (induction labels) (auto simp: reindex_def split: option.splits)

lemma length_reindex: "length (reindex labels frame) = length labels"
  by (simp add: reindex_def)

lemma reindex_keyed:
  "row \<in> set (reindex labels (map (\<lambda>k. (k, f k)) ks)) \<Longrightarrow>
     snd row = (if fst row \<in> set ks then f (fst row) else (None, None))"
  by (auto simp: reindex_def map_of_keyed)

lemma length_month_order: "length month_order = 12"
  by (simp add: month_order_def)

text \<open>
  C5. The monthly trends report has exactly 12 rows, labelled January to December in
  calendar order. The row of a month that occurs in the table carries the mean departure
  delay and the mean arrival delay of the month's rows; the row of a month that does not
  occur is missing in both columns.
\<close>

theorem monthly_trends_rows:
  assumes "rows = fst (plot_monthly_trends s)"
  shows "length rows = 12
     \<and> map fst rows = month_order
     \<and> (\<forall>row \<in> set rows.
           snd row = (if \<exists>r \<in> set (df s). month_name r = Some (fst row)
                      then (mean (map dep_delay (month_group s (fst row))),
                            mean (map arr_delay (month_group s (fst row))))
                      else (None, None)))"
proof -
  have rows: "rows = reindex month_order (map month_agg (groupby month_name (df s)))"
    using assms by (simp add: plot_monthly_trends_def Let_def)
  have "map fst rows = month_order"
    unfolding rows by (rule map_fst_reindex)
  moreover have "length rows = 12"
    unfolding rows length_reindex by (rule length_month_order)
  moreover have "snd row = (if \<exists>r \<in> set (df s). month_name r = Some (fst row)
                      then (mean (map dep_delay (month_group s (fst row))),
                            mean (map arr_delay (month_group s (fst row))))
                      else (None, None))" if "row \<in> set rows" for row
    using reindex_keyed [OF that [unfolded rows month_agg_groupby]]
    by (simp add: set_group_keys month_group_def)
  ultimately show ?thesis by blast
qed

theorem monthly_trends_rows_witness:
  "fst (plot_monthly_trends missing_delay)
     = [(''January'', None, None), (''February'', None, None), (''March'', Some 20, Some (7 / 2)),
        (''April'', None, None), (''May'', None, None), (''June'', None, None),
        (''July'', None, None), (''August'', None, None), (''September'', None, None),
        (''October'', None, None), (''November'', None, None), (''December'', None, None)]
   \<and> length (fst (plot_monthly_trends missing_delay)) = 12"
proof -
  have e: "fst (plot_monthly_trends missing_delay)
     = [(''January'', None, None), (''February'', None, None), (''March'', Some 20, Some (7 / 2)),
        (''April'', None, None), (''May'', None, None), (''June'', None, None),
        (''July'', None, None), (''August'', None, None), (''September'', None, None),
        (''October'', None, None), (''November'', None, None), (''December'', None, None)]"
    by code_simp
  from monthly_trends_rows [OF refl, of missing_delay] e show ?thesis by simp
qed

section \<open>Route analysis report\<close>













section \<open>The reports only read the table\<close>

lemma savefig_df [simp]: "df (savefig fname fig s) = df s"
  by (simp add: savefig_def)

lemma savefig_files [simp]: "files (savefig fname fig s) fname = Some fig"
  by (simp add: savefig_def)

lemma plot_delay_distribution_df [simp]: "df (snd (plot_delay_distribution c s)) = df s"
  by (simp add: plot_delay_distribution_def Let_def)

lemma plot_delay_distribution_reads_df:
  "df t = df s \<Longrightarrow>
     files (snd (plot_delay_distribution c t)) ''delay_distribution.png''
       = files (snd (plot_delay_distribution c s)) ''delay_distribution.png''"
  by (simp add: plot_delay_distribution_def Let_def split: option.splits)

lemma plot_carrier_performance_df [simp]:
  "df (snd (plot_carrier_performance argsort s)) = df s"
  by (simp add: plot_carrier_performance_def Let_def)

lemma plot_carrier_performance_reads_df:
  "df t = df s \<Longrightarrow>
     fst (plot_carrier_performance argsort t) = fst (plot_carrier_performance argsort s)
   \<and> files (snd (plot_carrier_performance argsort t)) ''carrier_performance.png''
       = (case fst (plot_carrier_performance argsort s) of
            Inl e \<Rightarrow> files t ''carrier_performance.png''
          | Inr r \<Rightarrow> files (snd (plot_carrier_performance argsort s)) ''carrier_performance.png'')"
  by (simp add: plot_carrier_performance_def Let_def)

lemma plot_hourly_delays_df [simp]: "df (snd (plot_hourly_delays s)) = df s"
  by (simp add: plot_hourly_delays_def Let_def)

lemma plot_hourly_delays_reads_df:
  "df t = df s \<Longrightarrow>
     fst (plot_hourly_delays t) = fst (plot_hourly_delays s)
   \<and> files (snd (plot_hourly_delays t)) ''hourly_delays.png''
       = (case fst (plot_hourly_delays s) of
            Inl e \<Rightarrow> files t ''hourly_delays.png''
          | Inr r \<Rightarrow> files (snd (plot_hourly_delays s)) ''hourly_delays.png'')"
  by (simp add: plot_hourly_delays_def Let_def)

lemma plot_route_analysis_df [simp]: "df (snd (plot_route_analysis argsort n s)) = df s"
  by (simp add: plot_route_analysis_def Let_def)

lemma plot_route_analysis_reads_df:
  "df t = df s \<Longrightarrow>
     fst (plot_route_analysis argsort n t) = fst (plot_route_analysis argsort n s)
   \<and> files (snd (plot_route_analysis argsort n t)) ''route_analysis.png''
       = (case fst (plot_route_analysis argsort n s) of
            Inl e \<Rightarrow> files t ''route_analysis.png''
          | Inr r \<Rightarrow> files (snd (plot_route_analysis argsort n s)) ''route_analysis.png'')"
  by (simp add: plot_route_analysis_def Let_def)

lemma plot_monthly_trends_df [simp]: "df (snd (plot_monthly_trends s)) = df s"
  by (simp add: plot_monthly_trends_def Let_def)

lemma plot_monthly_trends_reads_df:
  "df t = df s \<Longrightarrow>
     fst (plot_monthly_trends t) = fst (plot_monthly_trends s)
   \<and> files (snd (plot_monthly_trends t)) ''monthly_trends.png''
       = files (snd (plot_monthly_trends s)) ''monthly_trends.png''"
  by (simp add: plot_monthly_trends_def Let_def)

lemma call_df: "df (snd (call argsort m s)) = df s"
  by (cases m) (simp_all add: split_beta)

lemma call_depends_on_df:
  assumes "df t = df s"
  shows "fst (call argsort m t) = fst (call argsort m s)
   \<and> files (snd (call argsort m t)) (filename m)
       = (case fst (call argsort m s) of
            Inl e \<Rightarrow> files t (filename m)
          | Inr r \<Rightarrow> files (snd (call argsort m s)) (filename m))"
proof (cases m)
  case (Delay_distribution c)
  then show ?thesis using plot_delay_distribution_reads_df [OF assms, of c] by simp
next
  case Carrier_performance
  then show ?thesis
    using plot_carrier_performance_reads_df [OF assms, of argsort]
    by (simp add: split_beta map_sum_def split: sum.splits)
next
  case Hourly_delays
  then show ?thesis
    using plot_hourly_delays_reads_df [OF assms]
    by (simp add: split_beta map_sum_def split: sum.splits)
next
  case (Route_analysis n)
  then show ?thesis
    using plot_route_analysis_reads_df [OF assms, of argsort n]
    by (simp add: split_beta map_sum_def split: sum.splits)
next
  case Monthly_trends
  then show ?thesis using plot_monthly_trends_reads_df [OF assms] by (simp add: split_beta)
qed

lemma run_reads_only:
  "df (snd (run argsort ms s)) = df s
   \<and> fst (run argsort ms s) = map (\<lambda>m. fst (call argsort m s)) ms"
proof (induction ms arbitrary: s)
  case Nil
  show ?case by simp
next
  case (Cons m ms)
  have d: "df (snd (call argsort m s)) = df s" by (rule call_df)
  have "map (\<lambda>m'. fst (call argsort m' (snd (call argsort m s)))) ms
          = map (\<lambda>m'. fst (call argsort m' s)) ms"
    using call_depends_on_df [OF d] by simp
  with Cons [of "snd (call argsort m s)"] d show ?case
    by (simp add: split_beta)
qed

text \<open>
  C8. Running any sequence of the five reports leaves the table as it was; every call
  in the sequence has the outcome, the value returned or the error raised, that the same
  call has on the freshly loaded table; and after the sequence every report still has the
  outcome it would have on the freshly loaded table, saving to its file the same figure
  when it returns and leaving the file as it is when it raises.
\<close>

theorem reports_read_only:
  "df (snd (run argsort ms s)) = df s
   \<and> fst (run argsort ms s) = map (\<lambda>m. fst (call argsort m s)) ms
   \<and> (\<forall>m. fst (call argsort m (snd (run argsort ms s))) = fst (call argsort m s)
          \<and> files (snd (call argsort m (snd (run argsort ms s)))) (filename m)
              = (case fst (call argsort m s) of
                   Inl e \<Rightarrow> files (snd (run argsort ms s)) (filename m)
                 | Inr r \<Rightarrow> files (snd (call argsort m s)) (filename m)))"
proof -
  have d: "df (snd (run argsort ms s)) = df s" using run_reads_only [of argsort ms s] by simp
  show ?thesis
    using run_reads_only [of argsort ms s] call_depends_on_df [OF d, of argsort] by blast
qed

theorem reports_read_only_witness:
  "df (snd (run insertion_argsort
              [Carrier_performance, Route_analysis 15, Route_analysis 0, Carrier_performance]
              two_carriers))
     = df two_carriers
   \<and> fst (run insertion_argsort
             [Carrier_performance, Route_analysis 15, Route_analysis 0, Carrier_performance]
             two_carriers)
     = [Inr (Carrier_stats [(''AA'', Some 1, Some 30), (''UA'', Some (1 / 2), Some 10)]),
        Inr (Route_delays [((''EWR'', ''LAX''), Some 30, 1), ((''JFK'', ''LAX''), Some 10, 2)]),
        Inl IndexError,
        Inr (Carrier_stats [(''AA'', Some 1, Some 30), (''UA'', Some (1 / 2), Some 10)])]"
proof -
  have c: "fst (call insertion_argsort Carrier_performance two_carriers)
      = Inr (Carrier_stats [(''AA'', Some 1, Some 30), (''UA'', Some (1 / 2), Some 10)])"
    by code_simp
  have r: "fst (call insertion_argsort (Route_analysis 15) two_carriers)
      = Inr (Route_delays [((''EWR'', ''LAX''), Some 30, 1), ((''JFK'', ''LAX''), Some 10, 2)])"
    by code_simp
  have z: "fst (call insertion_argsort (Route_analysis 0) two_carriers) = Inl IndexError"
    by code_simp
  from reports_read_only [of insertion_argsort
      "[Carrier_performance, Route_analysis 15, Route_analysis 0, Carrier_performance]"
      two_carriers]
  have "df (snd (run insertion_argsort
              [Carrier_performance, Route_analysis 15, Route_analysis 0, Carrier_performance]
              two_carriers))
          = df two_carriers
      \<and> fst (run insertion_argsort
             [Carrier_performance, Route_analysis 15, Route_analysis 0, Carrier_performance]
             two_carriers)
          = map (\<lambda>m. fst (call insertion_argsort m two_carriers))
              [Carrier_performance, Route_analysis 15, Route_analysis 0, Carrier_performance]"
    by blast
  then show ?thesis by (simp only: list.map c r z)
qed

end
